theory Spec2Isabelle
  imports Complex_Main "HOL-Library.Word"
begin

unbundle bit_operations_syntax

section \<open>Particle logger (logger.c)\<close>















section \<open>Properties of the logger\<close>















section \<open>Tasks, cells and the engine (engine.c)\<close>

datatype task_type =
  task_type_none | task_type_sort | task_type_self | task_type_pair | task_type_sub_self
  | task_type_sub_pair | task_type_init | task_type_ghost | task_type_extra_ghost
  | task_type_drift | task_type_kick1 | task_type_kick2 | task_type_timestep
  | task_type_send | task_type_recv | task_type_grav_gather_m | task_type_grav_fft
  | task_type_grav_mm | task_type_grav_up | task_type_grav_down | task_type_cooling
  | task_type_sourceterms

datatype task_subtype =
  task_subtype_none | task_subtype_density | task_subtype_gradient | task_subtype_force
  | task_subtype_grav | task_subtype_external_grav | task_subtype_tend | task_subtype_xv
  | task_subtype_rho

text \<open>
  A pointer to a task is an index into the scheduler's task array, a pointer to a cell an
  index into the cell array; \<open>NULL\<close> is \<open>None\<close>.  Of \<open>struct task\<close> the fields that
  \<open>engine.c\<close> reads or writes are kept.
\<close>

record task =
  type :: task_type
  subtype :: task_subtype
  flags :: "32 word"
  ci :: "nat option"
  cj :: "nat option"
  skip :: bool
  tight :: bool

text \<open>
  \<open>struct cell\<close>.  The numeric type \<open>'f\<close> stands for C's \<open>float\<close>; its operations are
  the parameters \<open>float_ops\<close> below, so nothing is assumed about rounding.  The link lists
  \<open>send_xv\<close>, \<open>send_rho\<close>, \<open>send_ti\<close> are the lists of the linked tasks, head first.
\<close>

record 'f cell =
  ti_end_min :: int
  h_max :: 'f
  dx_max :: 'f
  dmin :: 'f
  sorted_c :: "32 word"
  count :: int
  nodeID :: int
  super :: "nat option"
  sorts :: "nat option"
  init :: "nat option"
  ghost :: "nat option"
  extra_ghost :: "nat option"
  drift :: "nat option"
  kick1 :: "nat option"
  kick2 :: "nat option"
  timestep :: "nat option"
  cooling :: "nat option"
  sourceterms :: "nat option"
  recv_xv :: "nat option"
  recv_rho :: "nat option"
  recv_ti :: "nat option"
  send_xv :: "nat list"
  send_rho :: "nat list"
  send_ti :: "nat list"

record 'f float_ops =
  f_add :: "'f \<Rightarrow> 'f \<Rightarrow> 'f"
  f_sub :: "'f \<Rightarrow> 'f \<Rightarrow> 'f"
  f_mul :: "'f \<Rightarrow> 'f \<Rightarrow> 'f"
  f_div :: "'f \<Rightarrow> 'f \<Rightarrow> 'f"
  f_max :: "'f \<Rightarrow> 'f \<Rightarrow> 'f"
  f_gt :: "'f \<Rightarrow> 'f \<Rightarrow> bool"
  f_lt :: "'f \<Rightarrow> 'f \<Rightarrow> bool"


text \<open>
  The engine.  \<open>engine_rank\<close> is the global variable of \<open>engine.c\<close> (set to the node id by
  \<open>engine_init\<close>); \<open>policy\<close> is the set of the \<open>engine_policy_*\<close> bits that are on.  The
  field \<open>nodeID\<close> of the engine is \<open>e_nodeID\<close> here, the cells have one of the same name.
\<close>

datatype engine_policy =
  engine_policy_hydro | engine_policy_self_gravity | engine_policy_external_gravity
  | engine_policy_cooling | engine_policy_sourceterms | engine_policy_mpi

record engine =
  e_nodeID :: int
  engine_rank :: int
  nr_nodes :: int
  ti_current :: int
  policy :: "engine_policy set"
  updates :: nat
  g_updates :: nat
  total_nr_parts :: nat
  total_nr_gparts :: nat
  forcerepart :: int

text \<open>The compile-time switches.\<close>

record config =
  WITH_MPI :: bool
  EXTRA_HYDRO_LOOP :: bool

datatype engine_error =
  Null_pointer
  | Missing_link_send_xv
  | Missing_link_send_rho
  | Missing_link_send_ti
  | Drift_task_missing

definition bind_res :: "'e + 'a \<Rightarrow> ('a \<Rightarrow> 'e + 'b) \<Rightarrow> 'e + 'b" where
  "bind_res m f = (case m of Inl err \<Rightarrow> Inl err | Inr x \<Rightarrow> f x)"

section \<open>The activation pass (engine\_marktasks)\<close>

text \<open>
  The state the pass works on: the scheduler's tasks, the cells, the per-cell counters
  \<open>updated\<close>, \<open>g_updated\<close>, \<open>s_updated\<close> (the only fields of a cell that the pass writes,
  kept in an array parallel to the cells) and the flag \<open>extra_data[1]\<close> that
  \<open>engine_marktasks\<close> hands to the mapper.
\<close>

record cell_counters =
  updated :: int
  g_updated :: int
  s_updated :: int

record 'f mstate =
  tasks :: "task list"
  cells :: "'f cell list"
  counters :: "cell_counters list"
  rebuild_space :: nat

text \<open>Dereferencing a pointer; a \<open>NULL\<close> or wild pointer stops the program.\<close>

definition cell_at :: "('f, 'x) mstate_scheme \<Rightarrow> nat option \<Rightarrow> engine_error + 'f cell" where
  "cell_at s p = (case p of None \<Rightarrow> Inl Null_pointer
     | Some c \<Rightarrow> if c < length (cells s) then Inr (cells s ! c) else Inl Null_pointer)"

definition task_at :: "('f, 'x) mstate_scheme \<Rightarrow> nat option \<Rightarrow> engine_error + task" where
  "task_at s p = (case p of None \<Rightarrow> Inl Null_pointer
     | Some k \<Rightarrow> if k < length (tasks s) then Inr (tasks s ! k) else Inl Null_pointer)"

text \<open>
  Modelled from the spec: \<open>cell_is_active\<close> is declared in \<open>active.h\<close>, which is not at
  hand.  The spec: a cell is active at integer time \<open>t_now\<close> iff \<open>cell.ti_end_min \<le> t_now\<close>.
\<close>

definition cell_is_active :: "'f cell \<Rightarrow> engine \<Rightarrow> bool" where
  "cell_is_active c e \<longleftrightarrow> ti_end_min c \<le> ti_current e"

text \<open>
  Modelled from the spec: \<open>scheduler_activate\<close> is defined in \<open>scheduler.h\<close>, which is not
  at hand.  The spec: a task carries a \<open>skip\<close> mark and activating it clears the mark.
\<close>

definition scheduler_activate :: "'f mstate \<Rightarrow> nat option \<Rightarrow> engine_error + 'f mstate" where
  "scheduler_activate s p = (case p of None \<Rightarrow> Inl Null_pointer
     | Some k \<Rightarrow>
         if k < length (tasks s)
         then Inr (s\<lparr>tasks := (tasks s)[k := (tasks s ! k)\<lparr>skip := False\<rparr>]\<rparr>)
         else Inl Null_pointer)"

text \<open>\<open>atomic_or(&c->sorts->flags, bits)\<close>\<close>

definition atomic_or_flags :: "'f mstate \<Rightarrow> nat option \<Rightarrow> 32 word \<Rightarrow> engine_error + 'f mstate" where
  "atomic_or_flags s p bits = (case p of None \<Rightarrow> Inl Null_pointer
     | Some k \<Rightarrow>
         if k < length (tasks s)
         then Inr (s\<lparr>tasks := (tasks s)[k := (tasks s ! k)\<lparr>flags := flags (tasks s ! k) OR bits\<rparr>]\<rparr>)
         else Inl Null_pointer)"

definition reset_updated :: "'f mstate \<Rightarrow> nat option \<Rightarrow> engine_error + 'f mstate" where
  "reset_updated s p = (case p of None \<Rightarrow> Inl Null_pointer
     | Some c \<Rightarrow>
         if c < length (cells s)
         then Inr (s\<lparr>counters := (counters s)[c := \<lparr>updated = 0, g_updated = 0, s_updated = 0\<rparr>]\<rparr>)
         else Inl Null_pointer)"

text \<open>
  The displacement test of the pair branch.  \<open>space_maxreldx\<close> is a constant of \<open>space.h\<close>
  (not at hand) and \<open>max\<close> a macro of \<open>minmax.h\<close>; both are parameters.
\<close>

definition too_much_movement :: "'f float_ops \<Rightarrow> 'f \<Rightarrow> 'f cell \<Rightarrow> 'f cell \<Rightarrow> bool" where
  "too_much_movement ops space_maxreldx a b \<longleftrightarrow>
     f_gt ops (f_add ops (f_add ops (f_max ops (h_max a) (h_max b)) (dx_max a)) (dx_max b)) (dmin b)
     \<or> f_gt ops (dx_max a) (f_mul ops space_maxreldx (h_max a))
     \<or> f_gt ops (dx_max b) (f_mul ops space_maxreldx (h_max b))"

text \<open>Setting the sort flag of one cell of an active density pair.\<close>

definition marktasks_sort :: "'f mstate \<Rightarrow> nat \<Rightarrow> nat option \<Rightarrow> engine_error + 'f mstate" where
  "marktasks_sort s ind pc =
     bind_res (cell_at s pc) (\<lambda>c.
       if sorted_c c AND push_bit (unat (flags (tasks s ! ind))) 1 = 0 then
         bind_res (atomic_or_flags s (sorts c) (push_bit (unat (flags (tasks s ! ind))) 1))
           (\<lambda>s'. scheduler_activate s' (sorts c))
       else Inr s)"

text \<open>
  The search \<open>for (l = c->send_xv; l != NULL && l->t->cj->nodeID != nid; l = l->next)\<close>:
  the first linked task whose \<open>cj\<close> lives on node \<open>nid\<close>.
\<close>

fun find_link :: "'f mstate \<Rightarrow> nat list \<Rightarrow> int \<Rightarrow> engine_error + nat option" where
  "find_link s [] nid = Inr None"
| "find_link s (t # l) nid =
     bind_res (task_at s (Some t)) (\<lambda>tk.
     bind_res (cell_at s (cj tk)) (\<lambda>c.
       if nodeID c \<noteq> nid then find_link s l nid else Inr (Some t)))"

definition activate_link ::
  "'f mstate \<Rightarrow> nat list \<Rightarrow> int \<Rightarrow> engine_error \<Rightarrow> engine_error + 'f mstate" where
  "activate_link s links nid err =
     bind_res (find_link s links nid) (\<lambda>l.
       case l of None \<Rightarrow> Inl err | Some t \<Rightarrow> scheduler_activate s (Some t))"

text \<open>
  The two symmetric \<open>WITH_MPI\<close> branches: \<open>pf\<close> is the foreign cell of the pair, \<open>pl\<close> the
  local one.
\<close>

definition marktasks_foreign ::
  "engine \<Rightarrow> 'f mstate \<Rightarrow> nat option \<Rightarrow> nat option \<Rightarrow> engine_error + 'f mstate" where
  "marktasks_foreign e s pf pl =
     bind_res (cell_at s pf) (\<lambda>cf.
     bind_res (scheduler_activate s (recv_xv cf)) (\<lambda>s1.
     bind_res (if cell_is_active cf e
               then bind_res (scheduler_activate s1 (recv_rho cf))
                      (\<lambda>s'. scheduler_activate s' (recv_ti cf))
               else Inr s1) (\<lambda>s2.
     bind_res (cell_at s2 pl) (\<lambda>cl.
     bind_res (activate_link s2 (send_xv cl) (nodeID cf) Missing_link_send_xv) (\<lambda>s3.
     bind_res (cell_at s3 (super cl)) (\<lambda>sup.
     bind_res (case drift sup of None \<Rightarrow> Inl Drift_task_missing
               | Some d \<Rightarrow> scheduler_activate s3 (Some d)) (\<lambda>s4.
       if cell_is_active cl e then
         bind_res (activate_link s4 (send_rho cl) (nodeID cf) Missing_link_send_rho) (\<lambda>s5.
           activate_link s5 (send_ti cl) (nodeID cf) Missing_link_send_ti)
       else Inr s4)))))))"

text \<open>The body of the mapper's loop, for the task \<open>t\<close> at index \<open>ind\<close>.\<close>

definition marktasks_single ::
  "engine \<Rightarrow> 'f mstate \<Rightarrow> nat \<Rightarrow> engine_error + 'f mstate" where
  "marktasks_single e s ind =
     bind_res (cell_at s (ci (tasks s ! ind))) (\<lambda>c.
       if cell_is_active c e then scheduler_activate s (Some ind) else Inr s)"

text \<open>The pair branch, in the order of the source: the displacement test, \<close>

definition marktasks_rebuild ::
  "'f float_ops \<Rightarrow> 'f \<Rightarrow> 'f mstate \<Rightarrow> nat \<Rightarrow> engine_error + 'f mstate" where
  "marktasks_rebuild ops space_maxreldx s ind =
     (if tight (tasks s ! ind) then
        bind_res (cell_at s (ci (tasks s ! ind))) (\<lambda>a.
        bind_res (cell_at s (cj (tasks s ! ind))) (\<lambda>b.
          Inr (if too_much_movement ops space_maxreldx a b
               then s\<lparr>rebuild_space := 1\<rparr> else s)))
      else Inr s)"

text \<open>the test \<open>cell_is_active(t->ci, e) || cell_is_active(t->cj, e)\<close>, \<close>

definition pair_is_active :: "engine \<Rightarrow> 'f mstate \<Rightarrow> nat \<Rightarrow> engine_error + bool" where
  "pair_is_active e s ind =
     bind_res (cell_at s (ci (tasks s ! ind))) (\<lambda>a.
       if cell_is_active a e then Inr True
       else bind_res (cell_at s (cj (tasks s ! ind))) (\<lambda>b. Inr (cell_is_active b e)))"

text \<open>the sort flags, \<close>

definition marktasks_sorts :: "'f mstate \<Rightarrow> nat \<Rightarrow> engine_error + 'f mstate" where
  "marktasks_sorts s ind =
     (if type (tasks s ! ind) = task_type_pair
      then bind_res (marktasks_sort s ind (ci (tasks s ! ind)))
             (\<lambda>s'. marktasks_sort s' ind (cj (tasks s' ! ind)))
      else Inr s)"

text \<open>and the send and receive tasks.\<close>

definition marktasks_mpi ::
  "config \<Rightarrow> engine \<Rightarrow> 'f mstate \<Rightarrow> nat \<Rightarrow> engine_error + 'f mstate" where
  "marktasks_mpi cfg e s ind =
     (if \<not> WITH_MPI cfg then Inr s else
      bind_res (cell_at s (ci (tasks s ! ind))) (\<lambda>a.
        if nodeID a \<noteq> engine_rank e
        then marktasks_foreign e s (ci (tasks s ! ind)) (cj (tasks s ! ind))
        else
      bind_res (cell_at s (cj (tasks s ! ind))) (\<lambda>b.
        if nodeID b \<noteq> engine_rank e
        then marktasks_foreign e s (cj (tasks s ! ind)) (ci (tasks s ! ind))
        else Inr s)))"

definition marktasks_pair ::
  "'f float_ops \<Rightarrow> 'f \<Rightarrow> config \<Rightarrow> engine \<Rightarrow> 'f mstate \<Rightarrow> nat \<Rightarrow> engine_error + 'f mstate" where
  "marktasks_pair ops space_maxreldx cfg e s ind =
     bind_res (marktasks_rebuild ops space_maxreldx s ind) (\<lambda>s1.
     bind_res (pair_is_active e s1 ind) (\<lambda>act.
       if \<not> act then Inr s1 else
     bind_res (scheduler_activate s1 (Some ind)) (\<lambda>s2.
       if subtype (tasks s2 ! ind) \<noteq> task_subtype_density then Inr s2 else
     bind_res (marktasks_sorts s2 ind) (\<lambda>s3.
       marktasks_mpi cfg e s3 ind))))"

definition marktasks_task ::
  "'f float_ops \<Rightarrow> 'f \<Rightarrow> config \<Rightarrow> engine \<Rightarrow> 'f mstate \<Rightarrow> nat \<Rightarrow> engine_error + 'f mstate" where
  "marktasks_task ops space_maxreldx cfg e s ind =
     (let t = tasks s ! ind in
      if type t = task_type_self \<or> type t = task_type_ghost \<or> type t = task_type_extra_ghost
         \<or> type t = task_type_cooling \<or> type t = task_type_sourceterms
         \<or> type t = task_type_sub_self
      then marktasks_single e s ind
      else if type t = task_type_pair \<or> type t = task_type_sub_pair
      then marktasks_pair ops space_maxreldx cfg e s ind
      else if type t = task_type_kick1 \<or> type t = task_type_kick2
         \<or> type t = task_type_drift \<or> type t = task_type_init
      then marktasks_single e s ind
      else if type t = task_type_timestep
      then bind_res (reset_updated s (ci t)) (\<lambda>s1. marktasks_single e s1 ind)
      else if type t = task_type_grav_gather_m \<or> type t = task_type_grav_fft
      then scheduler_activate s (Some ind)
      else Inr s)"

text \<open>
  \<open>engine_marktasks_mapper\<close> on the \<open>num_elements\<close> tasks that start at index \<open>first\<close>.
\<close>

fun engine_marktasks_mapper ::
  "'f float_ops \<Rightarrow> 'f \<Rightarrow> config \<Rightarrow> engine \<Rightarrow> 'f mstate \<Rightarrow> nat \<Rightarrow> nat
     \<Rightarrow> engine_error + 'f mstate" where
  "engine_marktasks_mapper ops space_maxreldx cfg e s first 0 = Inr s"
| "engine_marktasks_mapper ops space_maxreldx cfg e s first (Suc n) =
     bind_res (marktasks_task ops space_maxreldx cfg e s first)
       (\<lambda>s'. engine_marktasks_mapper ops space_maxreldx cfg e s' (Suc first) n)"

text \<open>
  \<open>engine_marktasks\<close>: the thread pool hands the mapper chunks of the task array; the
  model runs the chunks one after the other, in index order, that is the mapper on the
  whole array.  The result is the state and the flag.
\<close>

definition engine_marktasks ::
  "'f float_ops \<Rightarrow> 'f \<Rightarrow> config \<Rightarrow> engine \<Rightarrow> 'f mstate \<Rightarrow> engine_error + ('f mstate \<times> nat)" where
  "engine_marktasks ops space_maxreldx cfg e s =
     bind_res (engine_marktasks_mapper ops space_maxreldx cfg e (s\<lparr>rebuild_space := 0\<rparr>) 0
                 (length (tasks s)))
       (\<lambda>s'. Inr (s', rebuild_space s'))"

section \<open>The writes of the pass\<close>

datatype prim = Activate nat | OrFlags nat "32 word" | ResetUpdated nat | SetRebuild | ClearRebuild

fun apply_prim :: "prim \<Rightarrow> 'f mstate \<Rightarrow> 'f mstate" where
  "apply_prim (Activate k) s = s\<lparr>tasks := (tasks s)[k := (tasks s ! k)\<lparr>skip := False\<rparr>]\<rparr>"
| "apply_prim (OrFlags k w) s =
     (if type (tasks s ! k) = task_type_sort
      then s\<lparr>tasks := (tasks s)[k := (tasks s ! k)\<lparr>flags := flags (tasks s ! k) OR w\<rparr>]\<rparr>
      else s)"
| "apply_prim (ResetUpdated c) s =
     s\<lparr>counters := (counters s)[c := \<lparr>updated = 0, g_updated = 0, s_updated = 0\<rparr>]\<rparr>"
| "apply_prim SetRebuild s = s\<lparr>rebuild_space := 1\<rparr>"
| "apply_prim ClearRebuild s = s\<lparr>rebuild_space := 0\<rparr>"

definition run :: "prim list \<Rightarrow> 'f mstate \<Rightarrow> 'f mstate" where
  "run ps s = fold apply_prim ps s"

definition skel :: "task \<Rightarrow> task" where
  "skel t = t\<lparr>skip := True, flags := (if type t = task_type_sort then 0 else flags t)\<rparr>"

definition stat :: "'f mstate \<Rightarrow> task list \<times> 'f cell list" where
  "stat s = (map skel (tasks s), cells s)"

lemma run_Nil [simp]: "run [] s = s"
  by (simp add: run_def)

lemma run_Cons [simp]: "run (p # ps) s = run ps (apply_prim p s)"
  by (simp add: run_def)

lemma run_append [simp]: "run (ps @ qs) s = run qs (run ps s)"
  by (simp add: run_def)

lemma cells_apply_prim [simp]: "cells (apply_prim p s) = cells s"
  by (cases p) simp_all

lemma length_tasks_apply_prim [simp]: "length (tasks (apply_prim p s)) = length (tasks s)"
  by (cases p) simp_all

lemma skel_skip [simp]: "skel (t\<lparr>skip := b\<rparr>) = skel t"
  by (simp add: skel_def)

lemma skel_flags_sort: "type t = task_type_sort \<Longrightarrow> skel (t\<lparr>flags := w\<rparr>) = skel t"
  by (simp add: skel_def)

lemma map_skel_update:
  "skel t' = skel (ts ! k) \<Longrightarrow> map skel (ts[k := t']) = map skel ts"
proof (cases "k < length ts")
  case True
  assume a: "skel t' = skel (ts ! k)"
  have "(map skel ts)[k := map skel ts ! k] = map skel ts" by (rule list_update_id)
  with True a show ?thesis by (simp add: map_update)
next
  case False
  then have "ts[k := t'] = ts" by (simp add: list_update_beyond)
  then show ?thesis by simp
qed

lemma stat_apply_prim: "stat (apply_prim p s) = stat s"
  by (cases p) (simp_all add: stat_def map_skel_update skel_flags_sort)

lemma stat_cells: "stat s = stat s' \<Longrightarrow> cells s = cells s'"
  by (simp add: stat_def)

lemma stat_length: "stat s = stat s' \<Longrightarrow> length (tasks s) = length (tasks s')"
  by (simp add: stat_def) (metis length_map)

lemma stat_skel: "stat s = stat s' \<Longrightarrow> k < length (tasks s) \<Longrightarrow> skel (tasks s ! k) = skel (tasks s' ! k)"
  by (metis fst_conv nth_map stat_def stat_length)

lemma skel_fields:
  assumes "skel t = skel t'"
  shows "type t = type t'" "subtype t = subtype t'" "ci t = ci t'" "cj t = cj t'" "tight t = tight t'"
    "type t \<noteq> task_type_sort \<Longrightarrow> flags t = flags t'"
proof -
  from assms have e: "t\<lparr>skip := True, flags := (if type t = task_type_sort then 0 else flags t)\<rparr>
      = t'\<lparr>skip := True, flags := (if type t' = task_type_sort then 0 else flags t')\<rparr>"
    by (simp add: skel_def)
  from e have "type (t\<lparr>skip := True, flags := (if type t = task_type_sort then 0 else flags t)\<rparr>)
      = type (t'\<lparr>skip := True, flags := (if type t' = task_type_sort then 0 else flags t')\<rparr>)"
    by simp
  then show ty: "type t = type t'" by simp
  from e have "subtype (t\<lparr>skip := True, flags := (if type t = task_type_sort then 0 else flags t)\<rparr>)
      = subtype (t'\<lparr>skip := True, flags := (if type t' = task_type_sort then 0 else flags t')\<rparr>)"
    by simp
  then show "subtype t = subtype t'" by simp
  from e have "ci (t\<lparr>skip := True, flags := (if type t = task_type_sort then 0 else flags t)\<rparr>)
      = ci (t'\<lparr>skip := True, flags := (if type t' = task_type_sort then 0 else flags t')\<rparr>)"
    by simp
  then show "ci t = ci t'" by simp
  from e have "cj (t\<lparr>skip := True, flags := (if type t = task_type_sort then 0 else flags t)\<rparr>)
      = cj (t'\<lparr>skip := True, flags := (if type t' = task_type_sort then 0 else flags t')\<rparr>)"
    by simp
  then show "cj t = cj t'" by simp
  from e have "tight (t\<lparr>skip := True, flags := (if type t = task_type_sort then 0 else flags t)\<rparr>)
      = tight (t'\<lparr>skip := True, flags := (if type t' = task_type_sort then 0 else flags t')\<rparr>)"
    by simp
  then show "tight t = tight t'" by simp
  from e have "flags (t\<lparr>skip := True, flags := (if type t = task_type_sort then 0 else flags t)\<rparr>)
      = flags (t'\<lparr>skip := True, flags := (if type t' = task_type_sort then 0 else flags t')\<rparr>)"
    by simp
  with ty show "type t \<noteq> task_type_sort \<Longrightarrow> flags t = flags t'" by simp
qed

lemma stat_run: "stat (run ps s) = stat s"
  by (induction ps arbitrary: s) (simp_all add: stat_apply_prim)

lemma bind_res_Inl [simp]: "bind_res (Inl err) f = Inl err"
  by (simp add: bind_res_def)

lemma bind_res_Inr [simp]: "bind_res (Inr x) f = f x"
  by (simp add: bind_res_def)

definition pseq ::
  "engine_error + prim list \<Rightarrow> engine_error + prim list \<Rightarrow> engine_error + prim list" where
  "pseq p q = bind_res p (\<lambda>a. bind_res q (\<lambda>b. Inr (a @ b)))"

definition plan_activate :: "'f mstate \<Rightarrow> nat option \<Rightarrow> engine_error + prim list" where
  "plan_activate s p = (case p of None \<Rightarrow> Inl Null_pointer
     | Some k \<Rightarrow> if k < length (tasks s) then Inr [Activate k] else Inl Null_pointer)"

definition plan_sort :: "'f mstate \<Rightarrow> nat \<Rightarrow> nat option \<Rightarrow> engine_error + prim list" where
  "plan_sort s ind pc =
     bind_res (cell_at s pc) (\<lambda>c.
       if sorted_c c AND push_bit (unat (flags (tasks s ! ind))) 1 = 0 then
         (case sorts c of None \<Rightarrow> Inl Null_pointer
          | Some k \<Rightarrow> if k < length (tasks s)
              then Inr [OrFlags k (push_bit (unat (flags (tasks s ! ind))) 1), Activate k]
              else Inl Null_pointer)
       else Inr [])"

definition plan_link ::
  "'f mstate \<Rightarrow> nat list \<Rightarrow> int \<Rightarrow> engine_error \<Rightarrow> engine_error + prim list" where
  "plan_link s links nid err =
     bind_res (find_link s links nid) (\<lambda>l.
       case l of None \<Rightarrow> Inl err | Some t \<Rightarrow> Inr [Activate t])"

definition plan_foreign ::
  "engine \<Rightarrow> 'f mstate \<Rightarrow> nat option \<Rightarrow> nat option \<Rightarrow> engine_error + prim list" where
  "plan_foreign e s pf pl =
     bind_res (cell_at s pf) (\<lambda>cf.
     pseq (plan_activate s (recv_xv cf))
    (pseq (if cell_is_active cf e
           then pseq (plan_activate s (recv_rho cf)) (plan_activate s (recv_ti cf))
           else Inr [])
    (bind_res (cell_at s pl) (\<lambda>cl.
     pseq (plan_link s (send_xv cl) (nodeID cf) Missing_link_send_xv)
    (bind_res (cell_at s (super cl)) (\<lambda>sup.
     pseq (case drift sup of None \<Rightarrow> Inl Drift_task_missing
           | Some d \<Rightarrow> plan_activate s (Some d))
          (if cell_is_active cl e then
             pseq (plan_link s (send_rho cl) (nodeID cf) Missing_link_send_rho)
                  (plan_link s (send_ti cl) (nodeID cf) Missing_link_send_ti)
           else Inr [])))))))"

definition plan_single :: "engine \<Rightarrow> 'f mstate \<Rightarrow> nat \<Rightarrow> engine_error + prim list" where
  "plan_single e s ind =
     bind_res (cell_at s (ci (tasks s ! ind))) (\<lambda>c.
       if cell_is_active c e then plan_activate s (Some ind) else Inr [])"

definition plan_rebuild ::
  "'f float_ops \<Rightarrow> 'f \<Rightarrow> 'f mstate \<Rightarrow> nat \<Rightarrow> engine_error + prim list" where
  "plan_rebuild ops space_maxreldx s ind =
     (if tight (tasks s ! ind) then
        bind_res (cell_at s (ci (tasks s ! ind))) (\<lambda>a.
        bind_res (cell_at s (cj (tasks s ! ind))) (\<lambda>b.
          Inr (if too_much_movement ops space_maxreldx a b then [SetRebuild] else [])))
      else Inr [])"

definition plan_sorts :: "'f mstate \<Rightarrow> nat \<Rightarrow> engine_error + prim list" where
  "plan_sorts s ind =
     (if type (tasks s ! ind) = task_type_pair
      then pseq (plan_sort s ind (ci (tasks s ! ind))) (plan_sort s ind (cj (tasks s ! ind)))
      else Inr [])"

definition plan_mpi :: "config \<Rightarrow> engine \<Rightarrow> 'f mstate \<Rightarrow> nat \<Rightarrow> engine_error + prim list" where
  "plan_mpi cfg e s ind =
     (if \<not> WITH_MPI cfg then Inr [] else
      bind_res (cell_at s (ci (tasks s ! ind))) (\<lambda>a.
        if nodeID a \<noteq> engine_rank e
        then plan_foreign e s (ci (tasks s ! ind)) (cj (tasks s ! ind))
        else
      bind_res (cell_at s (cj (tasks s ! ind))) (\<lambda>b.
        if nodeID b \<noteq> engine_rank e
        then plan_foreign e s (cj (tasks s ! ind)) (ci (tasks s ! ind))
        else Inr [])))"

definition plan_pair ::
  "'f float_ops \<Rightarrow> 'f \<Rightarrow> config \<Rightarrow> engine \<Rightarrow> 'f mstate \<Rightarrow> nat \<Rightarrow> engine_error + prim list" where
  "plan_pair ops space_maxreldx cfg e s ind =
     pseq (plan_rebuild ops space_maxreldx s ind)
    (bind_res (pair_is_active e s ind) (\<lambda>act.
       if \<not> act then Inr [] else
     pseq (plan_activate s (Some ind))
      (if subtype (tasks s ! ind) \<noteq> task_subtype_density then Inr [] else
     pseq (plan_sorts s ind) (plan_mpi cfg e s ind))))"

definition plan_task ::
  "'f float_ops \<Rightarrow> 'f \<Rightarrow> config \<Rightarrow> engine \<Rightarrow> 'f mstate \<Rightarrow> nat \<Rightarrow> engine_error + prim list" where
  "plan_task ops space_maxreldx cfg e s ind =
     (let t = tasks s ! ind in
      if type t = task_type_self \<or> type t = task_type_ghost \<or> type t = task_type_extra_ghost
         \<or> type t = task_type_cooling \<or> type t = task_type_sourceterms
         \<or> type t = task_type_sub_self
      then plan_single e s ind
      else if type t = task_type_pair \<or> type t = task_type_sub_pair
      then plan_pair ops space_maxreldx cfg e s ind
      else if type t = task_type_kick1 \<or> type t = task_type_kick2
         \<or> type t = task_type_drift \<or> type t = task_type_init
      then plan_single e s ind
      else if type t = task_type_timestep
      then pseq (case ci t of None \<Rightarrow> Inl Null_pointer
                 | Some c \<Rightarrow> if c < length (cells s) then Inr [ResetUpdated c] else Inl Null_pointer)
             (plan_single e s ind)
      else if type t = task_type_grav_gather_m \<or> type t = task_type_grav_fft
      then plan_activate s (Some ind)
      else Inr [])"

fun plan_mapper ::
  "'f float_ops \<Rightarrow> 'f \<Rightarrow> config \<Rightarrow> engine \<Rightarrow> 'f mstate \<Rightarrow> nat \<Rightarrow> nat
     \<Rightarrow> engine_error + prim list" where
  "plan_mapper ops space_maxreldx cfg e s first 0 = Inr []"
| "plan_mapper ops space_maxreldx cfg e s first (Suc n) =
     pseq (plan_task ops space_maxreldx cfg e s first)
       (plan_mapper ops space_maxreldx cfg e s (Suc first) n)"

subsection \<open>What the writes leave alone\<close>

lemma nth_update_skip:
  "ts[k := (ts ! k)\<lparr>skip := b\<rparr>] ! i = (if i = k \<and> k < length ts then (ts ! k)\<lparr>skip := b\<rparr> else ts ! i)"
  by (cases "k < length ts"; cases "i = k") (simp_all add: list_update_beyond)

lemma nth_update_flags:
  "ts[k := (ts ! k)\<lparr>flags := w\<rparr>] ! i = (if i = k \<and> k < length ts then (ts ! k)\<lparr>flags := w\<rparr> else ts ! i)"
  by (cases "k < length ts"; cases "i = k") (simp_all add: list_update_beyond)

lemma type_apply_prim [simp]: "type (tasks (apply_prim p s) ! i) = type (tasks s ! i)"
  by (cases p) (simp_all add: nth_update_skip nth_update_flags)

lemma subtype_apply_prim [simp]: "subtype (tasks (apply_prim p s) ! i) = subtype (tasks s ! i)"
  by (cases p) (simp_all add: nth_update_skip nth_update_flags)

lemma ci_apply_prim [simp]: "ci (tasks (apply_prim p s) ! i) = ci (tasks s ! i)"
  by (cases p) (simp_all add: nth_update_skip nth_update_flags)

lemma cj_apply_prim [simp]: "cj (tasks (apply_prim p s) ! i) = cj (tasks s ! i)"
  by (cases p) (simp_all add: nth_update_skip nth_update_flags)

lemma tight_apply_prim [simp]: "tight (tasks (apply_prim p s) ! i) = tight (tasks s ! i)"
  by (cases p) (simp_all add: nth_update_skip nth_update_flags)

lemma cells_run [simp]: "cells (run ps s) = cells s"
  by (induction ps arbitrary: s) simp_all

lemma length_tasks_run [simp]: "length (tasks (run ps s)) = length (tasks s)"
  by (induction ps arbitrary: s) simp_all

lemma type_run [simp]: "type (tasks (run ps s) ! i) = type (tasks s ! i)"
  by (induction ps arbitrary: s) simp_all

lemma subtype_run [simp]: "subtype (tasks (run ps s) ! i) = subtype (tasks s ! i)"
  by (induction ps arbitrary: s) simp_all

lemma ci_run [simp]: "ci (tasks (run ps s) ! i) = ci (tasks s ! i)"
  by (induction ps arbitrary: s) simp_all

lemma cj_run [simp]: "cj (tasks (run ps s) ! i) = cj (tasks s ! i)"
  by (induction ps arbitrary: s) simp_all

lemma tight_run [simp]: "tight (tasks (run ps s) ! i) = tight (tasks s ! i)"
  by (induction ps arbitrary: s) simp_all

lemma cell_at_run [simp]: "cell_at (run ps s) p = cell_at s p"
  by (simp add: cell_at_def cong: option.case_cong if_cong)

lemma plan_activate_run [simp]: "plan_activate (run ps s) p = plan_activate s p"
  by (cases p) (simp_all add: plan_activate_def)

lemma find_link_run [simp]: "find_link (run ps s) l nid = find_link s l nid"
  by (induction l) (simp_all add: task_at_def cong: if_cong)

lemma plan_link_run [simp]: "plan_link (run ps s) l nid err = plan_link s l nid err"
  by (simp add: plan_link_def)

lemma plan_foreign_run [simp]: "plan_foreign e (run ps s) pf pl = plan_foreign e s pf pl"
  unfolding plan_foreign_def
  by (simp only: cell_at_run plan_activate_run plan_link_run cong: option.case_cong if_cong)

lemma plan_single_run [simp]: "plan_single e (run ps s) ind = plan_single e s ind"
  unfolding plan_single_def
  by (simp only: cell_at_run plan_activate_run ci_run cong: if_cong)

lemma flags_run:
  assumes "type (tasks s ! ind) \<noteq> task_type_sort"
  shows "flags (tasks (run ps s) ! ind) = flags (tasks s ! ind)"
  using assms
proof (induction ps arbitrary: s)
  case Nil
  then show ?case by simp
next
  case (Cons p ps)
  have "flags (tasks (apply_prim p s) ! ind) = flags (tasks s ! ind)"
    using Cons.prems by (cases p) (auto simp add: nth_update_skip nth_update_flags)
  moreover have "type (tasks (apply_prim p s) ! ind) \<noteq> task_type_sort"
    using Cons.prems by simp
  ultimately show ?case using Cons.IH[of "apply_prim p s"] by simp
qed

lemma plan_sort_run:
  "type (tasks s ! ind) \<noteq> task_type_sort \<Longrightarrow> plan_sort (run ps s) ind pc = plan_sort s ind pc"
  by (simp add: plan_sort_def flags_run cong: option.case_cong if_cong)

lemma plan_sorts_run [simp]: "plan_sorts (run ps s) ind = plan_sorts s ind"
  by (simp add: plan_sorts_def plan_sort_run cong: if_cong)

lemma plan_rebuild_run [simp]: "plan_rebuild ops mx (run ps s) ind = plan_rebuild ops mx s ind"
  by (simp add: plan_rebuild_def cong: if_cong)

lemma pair_is_active_run [simp]: "pair_is_active e (run ps s) ind = pair_is_active e s ind"
  by (simp add: pair_is_active_def cong: if_cong)

lemma plan_mpi_run [simp]: "plan_mpi cfg e (run ps s) ind = plan_mpi cfg e s ind"
  by (simp add: plan_mpi_def cong: if_cong)

lemma plan_pair_run [simp]: "plan_pair ops mx cfg e (run ps s) ind = plan_pair ops mx cfg e s ind"
  by (simp add: plan_pair_def cong: if_cong)

lemma plan_task_run [simp]: "plan_task ops mx cfg e (run ps s) ind = plan_task ops mx cfg e s ind"
  by (simp add: plan_task_def Let_def cong: if_cong option.case_cong)

lemma plan_mapper_run [simp]:
  "plan_mapper ops mx cfg e (run ps s) first n = plan_mapper ops mx cfg e s first n"
  by (induction n arbitrary: first) simp_all

subsection \<open>The pass as a list of writes\<close>

lemma bind_res_assoc: "bind_res (bind_res m f) g = bind_res m (\<lambda>x. bind_res (f x) g)"
  by (cases m) simp_all

lemma bind_res_if: "bind_res (if c then a else b) f = (if c then bind_res a f else bind_res b f)"
  by simp

lemma bind_res_case_option:
  "bind_res (case x of None \<Rightarrow> a | Some d \<Rightarrow> b d) f
     = (case x of None \<Rightarrow> bind_res a f | Some d \<Rightarrow> bind_res (b d) f)"
  by (cases x) simp_all

lemma activate_eq:
  "scheduler_activate s p = bind_res (plan_activate s p) (\<lambda>ps. Inr (run ps s))"
  by (simp add: scheduler_activate_def plan_activate_def split: option.splits)

lemma find_link_bound: "find_link s l nid = Inr (Some t) \<Longrightarrow> t < length (tasks s)"
  by (induction l) (auto simp: task_at_def bind_res_def split: if_splits sum.splits)

lemma link_eq:
  "activate_link s l nid err = bind_res (plan_link s l nid err) (\<lambda>ps. Inr (run ps s))"
proof (cases "find_link s l nid")
  case (Inl a)
  then show ?thesis by (simp add: activate_link_def plan_link_def)
next
  case (Inr r)
  show ?thesis
  proof (cases r)
    case None
    with Inr show ?thesis by (simp add: activate_link_def plan_link_def)
  next
    case (Some t)
    with Inr have "t < length (tasks s)" by (simp add: find_link_bound)
    with Inr Some show ?thesis
      by (simp add: activate_link_def plan_link_def scheduler_activate_def)
  qed
qed

lemma foreign_eq:
  "marktasks_foreign e s pf pl = bind_res (plan_foreign e s pf pl) (\<lambda>ps. Inr (run ps s))"
  unfolding marktasks_foreign_def plan_foreign_def pseq_def
  by (simp add: activate_eq link_eq bind_res_assoc bind_res_if bind_res_case_option
      cong: if_cong option.case_cong)

text \<open>The sort pointer of every cell refers to a task of type sort.\<close>

definition sorts_linked :: "'f mstate \<Rightarrow> bool" where
  "sorts_linked s \<longleftrightarrow>
     list_all (\<lambda>c. case sorts c of None \<Rightarrow> True
                | Some k \<Rightarrow> k < length (tasks s) \<and> type (tasks s ! k) = task_type_sort)
       (cells s)"

lemma sorts_linked_run [simp]: "sorts_linked (run ps s) = sorts_linked s"
  by (simp add: sorts_linked_def cong: option.case_cong)

lemma sorts_linkedD:
  "sorts_linked s \<Longrightarrow> cell_at s p = Inr c \<Longrightarrow> sorts c = Some k \<Longrightarrow>
     k < length (tasks s) \<and> type (tasks s ! k) = task_type_sort"
  by (auto simp: sorts_linked_def cell_at_def list_all_length split: option.splits if_splits)

lemma sort_eq:
  assumes "sorts_linked s"
  shows "marktasks_sort s ind pc = bind_res (plan_sort s ind pc) (\<lambda>ps. Inr (run ps s))"
proof (cases "cell_at s pc")
  case (Inl a)
  then show ?thesis by (simp add: marktasks_sort_def plan_sort_def)
next
  case (Inr c)
  show ?thesis
  proof (cases "sorts c")
    case None
    with Inr show ?thesis
      by (simp add: marktasks_sort_def plan_sort_def atomic_or_flags_def)
  next
    case (Some k)
    with assms Inr have "k < length (tasks s)" "type (tasks s ! k) = task_type_sort"
      by (auto dest: sorts_linkedD)
    with Inr Some show ?thesis
      by (simp add: marktasks_sort_def plan_sort_def atomic_or_flags_def scheduler_activate_def)
  qed
qed

lemma single_eq:
  "marktasks_single e s ind = bind_res (plan_single e s ind) (\<lambda>ps. Inr (run ps s))"
  unfolding marktasks_single_def plan_single_def
  by (simp add: activate_eq bind_res_assoc bind_res_if cong: if_cong)

lemma run_if: "run (if c then a else b) s = (if c then run a s else run b s)"
  by simp

lemma rebuild_eq:
  "marktasks_rebuild ops mx s ind = bind_res (plan_rebuild ops mx s ind) (\<lambda>ps. Inr (run ps s))"
  unfolding marktasks_rebuild_def plan_rebuild_def
  by (simp add: bind_res_assoc bind_res_if run_if cong: if_cong)

lemma sorts_eq:
  assumes "sorts_linked s"
  shows "marktasks_sorts s ind = bind_res (plan_sorts s ind) (\<lambda>ps. Inr (run ps s))"
proof (cases "type (tasks s ! ind) = task_type_pair")
  case True
  then have ns: "type (tasks s ! ind) \<noteq> task_type_sort" by simp
  from True show ?thesis
    unfolding marktasks_sorts_def plan_sorts_def pseq_def
    using assms ns by (simp add: sort_eq bind_res_assoc plan_sort_run)
next
  case False
  then show ?thesis by (simp add: marktasks_sorts_def plan_sorts_def)
qed

lemma mpi_eq:
  "marktasks_mpi cfg e s ind = bind_res (plan_mpi cfg e s ind) (\<lambda>ps. Inr (run ps s))"
  unfolding marktasks_mpi_def plan_mpi_def
  by (simp add: foreign_eq bind_res_assoc bind_res_if cong: if_cong)

lemma pair_eq:
  assumes "sorts_linked s"
  shows "marktasks_pair ops mx cfg e s ind
     = bind_res (plan_pair ops mx cfg e s ind) (\<lambda>ps. Inr (run ps s))"
  unfolding marktasks_pair_def plan_pair_def pseq_def
  using assms
  by (simp add: rebuild_eq activate_eq sorts_eq mpi_eq bind_res_assoc bind_res_if cong: if_cong)

lemma task_eq:
  assumes "sorts_linked s"
  shows "marktasks_task ops mx cfg e s ind
     = bind_res (plan_task ops mx cfg e s ind) (\<lambda>ps. Inr (run ps s))"
proof -
  have r: "reset_updated s (ci (tasks s ! ind))
      = bind_res (case ci (tasks s ! ind) of None \<Rightarrow> Inl Null_pointer
                  | Some c \<Rightarrow> if c < length (cells s) then Inr [ResetUpdated c] else Inl Null_pointer)
          (\<lambda>ps. Inr (run ps s))"
    by (simp add: reset_updated_def split: option.splits)
  show ?thesis
    unfolding marktasks_task_def plan_task_def Let_def pseq_def
    using assms
    by (simp add: r single_eq pair_eq activate_eq bind_res_assoc cong: if_cong)
qed

lemma mapper_eq:
  assumes "sorts_linked s"
  shows "engine_marktasks_mapper ops mx cfg e s first n
     = bind_res (plan_mapper ops mx cfg e s first n) (\<lambda>ps. Inr (run ps s))"
  using assms
proof (induction n arbitrary: s first)
  case 0
  then show ?case by simp
next
  case (Suc n)
  show ?case
    using Suc.prems
    by (simp add: task_eq Suc.IH bind_res_assoc pseq_def)
qed

subsection \<open>The state after a list of writes\<close>

fun upd :: "prim \<Rightarrow> nat \<Rightarrow> task \<Rightarrow> task" where
  "upd (Activate k) i t = (if i = k then t\<lparr>skip := False\<rparr> else t)"
| "upd (OrFlags k w) i t =
     (if i = k \<and> type t = task_type_sort then t\<lparr>flags := flags t OR w\<rparr> else t)"
| "upd p i t = t"

fun or_all :: "nat \<Rightarrow> prim list \<Rightarrow> 32 word" where
  "or_all i [] = 0"
| "or_all i (OrFlags k w # ps) = (if k = i then w OR or_all i ps else or_all i ps)"
| "or_all i (p # ps) = or_all i ps"

lemma nth_tasks_apply_prim:
  "i < length (tasks s) \<Longrightarrow> tasks (apply_prim p s) ! i = upd p i (tasks s ! i)"
  by (cases p) (auto simp: nth_list_update)

lemma nth_tasks_run:
  "i < length (tasks s) \<Longrightarrow> tasks (run ps s) ! i = fold (\<lambda>p. upd p i) ps (tasks s ! i)"
  by (induction ps arbitrary: s) (simp_all add: nth_tasks_apply_prim)

lemma type_upd [simp]: "type (upd p i t) = type t"
  by (cases p) simp_all

lemma fold_upd:
  "fold (\<lambda>p. upd p i) ps t =
     t\<lparr>skip := skip t \<and> Activate i \<notin> set ps,
       flags := (if type t = task_type_sort then flags t OR or_all i ps else flags t)\<rparr>"
proof (induction ps arbitrary: t)
  case Nil
  then show ?case by simp
next
  case (Cons p ps)
  show ?case
    by (cases p) (auto simp: Cons.IH ac_simps)
qed




lemma tasks_run_cong:
  assumes "tasks s = tasks u"
  shows "tasks (run ps s) = tasks (run ps u)"
proof (rule nth_equalityI)
  show "length (tasks (run ps s)) = length (tasks (run ps u))" using assms by simp
next
  fix i assume "i < length (tasks (run ps s))"
  then have "i < length (tasks s)" "i < length (tasks u)" using assms by simp_all
  then show "tasks (run ps s) ! i = tasks (run ps u) ! i"
    using assms by (simp add: nth_tasks_run)
qed

lemma tasks_run_idem: "tasks (run ps (run ps s)) = tasks (run ps s)"
proof (rule nth_equalityI)
  show "length (tasks (run ps (run ps s))) = length (tasks (run ps s))" by simp
next
  fix i assume "i < length (tasks (run ps (run ps s)))"
  then have i: "i < length (tasks s)" by simp
  have "\<And>w. w OR or_all i ps OR or_all i ps = w OR or_all i ps"
    by (simp add: bit_eq_iff bit_or_iff)
  then show "tasks (run ps (run ps s)) ! i = tasks (run ps s) ! i"
    using i by (simp add: nth_tasks_run fold_upd)
qed


lemma counters_run_nth:
  "i < length (counters s) \<Longrightarrow>
     counters (run ps s) ! i =
       (if ResetUpdated i \<in> set ps then \<lparr>updated = 0, g_updated = 0, s_updated = 0\<rparr>
        else counters s ! i)"
proof (induction ps arbitrary: s)
  case Nil
  then show ?case by simp
next
  case (Cons p ps)
  then show ?case by (cases p) (auto simp: nth_list_update)
qed

lemma length_counters_run [simp]: "length (counters (run ps s)) = length (counters s)"
proof (induction ps arbitrary: s)
  case Nil
  then show ?case by simp
next
  case (Cons p ps)
  then show ?case by (cases p) simp_all
qed

lemma counters_run_cong:
  "counters s = counters u \<Longrightarrow> counters (run ps s) = counters (run ps u)"
  by (rule nth_equalityI) (simp_all add: counters_run_nth)

lemma counters_run_idem: "counters (run ps (run ps s)) = counters (run ps s)"
  by (rule nth_equalityI) (simp_all add: counters_run_nth)

lemma rebuild_space_run:
  "ClearRebuild \<notin> set ps \<Longrightarrow>
     rebuild_space (run ps s) = (if SetRebuild \<in> set ps then 1 else rebuild_space s)"
proof (induction ps arbitrary: s)
  case Nil
  then show ?case by simp
next
  case (Cons p ps)
  then show ?case by (cases p) auto
qed

lemma mstate_eqI:
  fixes s u :: "'f mstate"
  assumes "tasks s = tasks u" "cells s = cells u" "counters s = counters u"
    "rebuild_space s = rebuild_space u"
  shows "s = u"
  using assms by (cases s; cases u) simp

lemma run_clear_run_idem:
  assumes "ClearRebuild \<notin> set ps"
  shows "run ps (run [ClearRebuild] (run ps (run [ClearRebuild] s)))
           = run ps (run [ClearRebuild] s)"
proof (rule mstate_eqI)
  have "tasks (run ps (run [ClearRebuild] (run ps (run [ClearRebuild] s))))
      = tasks (run ps (run ps (run [ClearRebuild] s)))"
    by (rule tasks_run_cong) simp
  then show "tasks (run ps (run [ClearRebuild] (run ps (run [ClearRebuild] s))))
      = tasks (run ps (run [ClearRebuild] s))"
    by (simp only: tasks_run_idem)
  have "counters (run ps (run [ClearRebuild] (run ps (run [ClearRebuild] s))))
      = counters (run ps (run ps (run [ClearRebuild] s)))"
    by (rule counters_run_cong) simp
  then show "counters (run ps (run [ClearRebuild] (run ps (run [ClearRebuild] s))))
      = counters (run ps (run [ClearRebuild] s))"
    by (simp only: counters_run_idem)
  show "cells (run ps (run [ClearRebuild] (run ps (run [ClearRebuild] s))))
      = cells (run ps (run [ClearRebuild] s))"
    by simp
  show "rebuild_space (run ps (run [ClearRebuild] (run ps (run [ClearRebuild] s))))
      = rebuild_space (run ps (run [ClearRebuild] s))"
    using assms by (simp add: rebuild_space_run)
qed

subsection \<open>Which writes a plan can hold\<close>

definition all_prims :: "(prim \<Rightarrow> bool) \<Rightarrow> engine_error + prim list \<Rightarrow> bool" where
  "all_prims Q P \<longleftrightarrow> (case P of Inl err \<Rightarrow> True | Inr ps \<Rightarrow> list_all Q ps)"


lemma all_prims_Inl: "all_prims Q (Inl err)"
  by (simp add: all_prims_def)

lemma all_prims_Nil: "all_prims Q (Inr [])"
  by (simp add: all_prims_def)

lemma all_prims_pseq: "all_prims Q P \<Longrightarrow> all_prims Q P' \<Longrightarrow> all_prims Q (pseq P P')"
  by (cases P; cases P') (simp_all add: all_prims_def pseq_def)

lemma all_prims_bind: "(\<And>x. m = Inr x \<Longrightarrow> all_prims Q (f x)) \<Longrightarrow> all_prims Q (bind_res m f)"
  by (cases m) (simp_all add: all_prims_def)

lemma all_prims_if:
  "(c \<Longrightarrow> all_prims Q a) \<Longrightarrow> (\<not> c \<Longrightarrow> all_prims Q b) \<Longrightarrow> all_prims Q (if c then a else b)"
  by simp

lemma all_prims_case_option:
  "(x = None \<Longrightarrow> all_prims Q a) \<Longrightarrow> (\<And>d. x = Some d \<Longrightarrow> all_prims Q (b d)) \<Longrightarrow>
     all_prims Q (case x of None \<Rightarrow> a | Some d \<Rightarrow> b d)"
  by (cases x) simp_all

lemmas all_prims_intros = all_prims_Inl all_prims_Nil all_prims_pseq all_prims_bind
  all_prims_if all_prims_case_option

lemma all_prims_mapper:
  assumes "\<And>i. all_prims Q (plan_task ops mx cfg e s i)"
  shows "all_prims Q (plan_mapper ops mx cfg e s first n)"
  by (induction n arbitrary: first) (auto intro: all_prims_intros assms)

text \<open>No plan clears the flag.\<close>

lemma noclear_activate: "all_prims (\<lambda>p. p \<noteq> ClearRebuild) (plan_activate s p)"
  by (auto simp: all_prims_def plan_activate_def split: option.splits)

lemma noclear_link: "all_prims (\<lambda>p. p \<noteq> ClearRebuild) (plan_link s l nid err)"
  by (cases "find_link s l nid") (auto simp: all_prims_def plan_link_def split: option.splits)

lemma noclear_sort: "all_prims (\<lambda>p. p \<noteq> ClearRebuild) (plan_sort s ind pc)"
  by (cases "cell_at s pc") (auto simp: all_prims_def plan_sort_def split: option.splits)

lemma noclear_set: "all_prims (\<lambda>p. p \<noteq> ClearRebuild) (Inr (if c then [SetRebuild] else []))"
  by (simp add: all_prims_def)

lemma noclear_reset: "all_prims (\<lambda>p. p \<noteq> ClearRebuild) (Inr [ResetUpdated c])"
  by (simp add: all_prims_def)

lemma noclear_task: "all_prims (\<lambda>p. p \<noteq> ClearRebuild) (plan_task ops mx cfg e s i)"
  unfolding plan_task_def plan_single_def plan_pair_def plan_rebuild_def plan_sorts_def
    plan_mpi_def plan_foreign_def Let_def
  by (intro all_prims_intros noclear_activate noclear_link noclear_sort noclear_set
      noclear_reset)

lemma noclear_mapper:
  assumes "plan_mapper ops mx cfg e s first n = Inr ps"
  shows "ClearRebuild \<notin> set ps"
proof -
  have "all_prims (\<lambda>p. p \<noteq> ClearRebuild) (plan_mapper ops mx cfg e s first n)"
    by (rule all_prims_mapper) (rule noclear_task)
  then show ?thesis using assms by (auto simp: all_prims_def list_all_iff)
qed

subsection \<open>The whole pass\<close>

lemma clear_run: "s\<lparr>rebuild_space := 0\<rparr> = run [ClearRebuild] s"
  by simp

lemma bind_res_Inr_iff: "bind_res m f = Inr y \<longleftrightarrow> (\<exists>x. m = Inr x \<and> f x = Inr y)"
  by (cases m) simp_all

lemma marktasks_plan:
  assumes "sorts_linked s"
  shows "engine_marktasks ops mx cfg e s =
     bind_res (plan_mapper ops mx cfg e s 0 (length (tasks s)))
       (\<lambda>ps. Inr (run ps (run [ClearRebuild] s), if SetRebuild \<in> set ps then 1 else 0))"
proof -
  let ?u = "run [ClearRebuild] s"
  let ?n = "length (tasks s)"
  have e: "engine_marktasks ops mx cfg e s =
      bind_res (engine_marktasks_mapper ops mx cfg e ?u 0 ?n) (\<lambda>s'. Inr (s', rebuild_space s'))"
    by (simp add: engine_marktasks_def)
  have "sorts_linked ?u" using assms by (simp only: sorts_linked_run)
  then have "engine_marktasks_mapper ops mx cfg e ?u 0 ?n =
      bind_res (plan_mapper ops mx cfg e ?u 0 ?n) (\<lambda>ps. Inr (run ps ?u))"
    by (rule mapper_eq)
  then have m: "engine_marktasks_mapper ops mx cfg e ?u 0 ?n =
      bind_res (plan_mapper ops mx cfg e s 0 ?n) (\<lambda>ps. Inr (run ps ?u))"
    by (simp only: plan_mapper_run)
  show ?thesis
  proof (cases "plan_mapper ops mx cfg e s 0 ?n")
    case (Inl a)
    then show ?thesis unfolding e m by (simp only: bind_res_Inl)
  next
    case (Inr ps)
    then have "ClearRebuild \<notin> set ps" by (rule noclear_mapper)
    then have "rebuild_space (run ps ?u) = (if SetRebuild \<in> set ps then 1 else 0)"
      by (simp add: rebuild_space_run)
    with Inr show ?thesis unfolding e m by (simp only: bind_res_Inr)
  qed
qed

lemma marktasks_twice:
  assumes "sorts_linked s" and "engine_marktasks ops mx cfg e s = Inr (s', r)"
  shows "engine_marktasks ops mx cfg e s' = Inr (s', r)"
proof -
  from assms obtain ps where
    ps: "plan_mapper ops mx cfg e s 0 (length (tasks s)) = Inr ps"
    and s': "s' = run ps (run [ClearRebuild] s)"
    and r: "r = (if SetRebuild \<in> set ps then 1 else 0)"
    by (auto simp: marktasks_plan bind_res_Inr_iff)
  have nc: "ClearRebuild \<notin> set ps" using ps by (rule noclear_mapper)
  have l: "sorts_linked s'" using assms(1) unfolding s' by (simp only: sorts_linked_run)
  have p': "plan_mapper ops mx cfg e s' 0 (length (tasks s')) = Inr ps"
    using ps unfolding s' by (simp only: plan_mapper_run length_tasks_run)
  have "run ps (run [ClearRebuild] s') = s'"
    unfolding s' using nc by (rule run_clear_run_idem)
  with p' r show ?thesis unfolding marktasks_plan[OF l] by (simp only: bind_res_Inr)
qed




definition real_ops :: "real float_ops" where
  "real_ops = \<lparr> f_add = (+), f_sub = (-), f_mul = (*), f_div = (/), f_max = max,
     f_gt = (\<lambda>a b. a > b), f_lt = (\<lambda>a b. a < b) \<rparr>"

definition cell_blank :: "real cell" where
  "cell_blank = \<lparr> ti_end_min = 0, h_max = 0, dx_max = 0, dmin = 0, sorted_c = 0, count = 0,
     nodeID = 0, super = None, sorts = None, init = None, ghost = None, extra_ghost = None,
     drift = None, kick1 = None, kick2 = None, timestep = None, cooling = None,
     sourceterms = None, recv_xv = None, recv_rho = None, recv_ti = None,
     send_xv = [], send_rho = [], send_ti = [] \<rparr>"

definition task_blank :: task where
  "task_blank = \<lparr> type = task_type_none, subtype = task_subtype_none, flags = 0,
     ci = None, cj = None, skip = True, tight = False \<rparr>"

definition engine0 :: engine where
  "engine0 = \<lparr> e_nodeID = 0, engine_rank = 0, nr_nodes = 2, ti_current = 5,
     policy = {engine_policy_hydro}, updates = 0, g_updates = 0, total_nr_parts = 1000,
     total_nr_gparts = 0, forcerepart = 0 \<rparr>"

definition config0 :: config where
  "config0 = \<lparr> WITH_MPI = False, EXTRA_HYDRO_LOOP = False \<rparr>"

text \<open>
  Two neighbouring local cells; cell 0 is active at time 5 and already sorted along axis 3,
  cell 1 is not active and not sorted.  The tasks: the density pair of the two cells along
  axis 3, the sort task of each cell, the density self task of cell 1, a \<open>grav_fft\<close> task
  and the time-step task of cell 0.
\<close>

definition state0 :: "real mstate" where
  "state0 = \<lparr>
     tasks = [
       task_blank\<lparr>type := task_type_pair, subtype := task_subtype_density, flags := 3,
                  ci := Some 0, cj := Some 1, tight := True\<rparr>,
       task_blank\<lparr>type := task_type_sort, ci := Some 0\<rparr>,
       task_blank\<lparr>type := task_type_sort, ci := Some 1\<rparr>,
       task_blank\<lparr>type := task_type_self, subtype := task_subtype_density, ci := Some 1\<rparr>,
       task_blank\<lparr>type := task_type_grav_fft\<rparr>,
       task_blank\<lparr>type := task_type_timestep, ci := Some 0\<rparr>],
     cells = [
       cell_blank\<lparr>ti_end_min := 5, h_max := 1, dx_max := 0, dmin := 4, sorted_c := 8,
                  sorts := Some 1\<rparr>,
       cell_blank\<lparr>ti_end_min := 8, h_max := 1, dx_max := 0, dmin := 4, sorted_c := 0,
                  sorts := Some 2\<rparr>],
     counters = [\<lparr>updated = 7, g_updated = 0, s_updated = 0\<rparr>,
                 \<lparr>updated = 3, g_updated = 0, s_updated = 0\<rparr>],
     rebuild_space = 0 \<rparr>"

definition state1 :: "real mstate" where
  "state1 = \<lparr>
     tasks = [
       task_blank\<lparr>type := task_type_pair, subtype := task_subtype_density, flags := 3,
                  ci := Some 0, cj := Some 1, tight := True, skip := False\<rparr>,
       task_blank\<lparr>type := task_type_sort, ci := Some 0\<rparr>,
       task_blank\<lparr>type := task_type_sort, ci := Some 1, flags := 8, skip := False\<rparr>,
       task_blank\<lparr>type := task_type_self, subtype := task_subtype_density, ci := Some 1\<rparr>,
       task_blank\<lparr>type := task_type_grav_fft, skip := False\<rparr>,
       task_blank\<lparr>type := task_type_timestep, ci := Some 0, skip := False\<rparr>],
     cells = cells state0,
     counters = [\<lparr>updated = 0, g_updated = 0, s_updated = 0\<rparr>,
                 \<lparr>updated = 3, g_updated = 0, s_updated = 0\<rparr>],
     rebuild_space = 0 \<rparr>"

lemma sorts_linked_state0: "sorts_linked state0"
  by (simp add: sorts_linked_def state0_def cell_blank_def task_blank_def)

lemma marktasks_state0:
  "engine_marktasks real_ops (1/4) config0 engine0 state0 = Inr (state1, 0)"
  by (simp add: engine_marktasks_def marktasks_task_def marktasks_pair_def
      marktasks_single_def marktasks_rebuild_def pair_is_active_def marktasks_sorts_def
      marktasks_sort_def marktasks_mpi_def cell_at_def scheduler_activate_def
      atomic_or_flags_def reset_updated_def too_much_movement_def cell_is_active_def
      state0_def state1_def cell_blank_def task_blank_def real_ops_def engine0_def config0_def)

subsection \<open>Which tasks the pass activates\<close>


text \<open>
  With MPI, the receive pointers of every cell refer to tasks of type recv, its send links
  to tasks of type send and its drift pointer to a task of type drift.
\<close>

definition mpi_linked :: "'f mstate \<Rightarrow> bool" where
  "mpi_linked s \<longleftrightarrow>
     list_all (\<lambda>c.
        list_all (\<lambda>p. case p of None \<Rightarrow> True | Some k \<Rightarrow> type (tasks s ! k) = task_type_recv)
          [recv_xv c, recv_rho c, recv_ti c]
        \<and> list_all (\<lambda>k. type (tasks s ! k) = task_type_send) (send_xv c @ send_rho c @ send_ti c)
        \<and> (case drift c of None \<Rightarrow> True | Some k \<Rightarrow> type (tasks s ! k) = task_type_drift))
       (cells s)"

definition well_linked :: "config \<Rightarrow> 'f mstate \<Rightarrow> bool" where
  "well_linked cfg s \<longleftrightarrow> sorts_linked s \<and> (if WITH_MPI cfg then mpi_linked s else True)"



























subsection \<open>The rebuild flag\<close>

text \<open>What no step of the pass changes, and what only the displacement test changes.\<close>

definition same_graph :: "'f mstate \<Rightarrow> 'f mstate \<Rightarrow> bool" where
  "same_graph s s' \<longleftrightarrow>
     cells s' = cells s \<and> length (tasks s') = length (tasks s)
     \<and> (\<forall>k. type (tasks s' ! k) = type (tasks s ! k) \<and> tight (tasks s' ! k) = tight (tasks s ! k)
            \<and> ci (tasks s' ! k) = ci (tasks s ! k) \<and> cj (tasks s' ! k) = cj (tasks s ! k))"

definition keeps :: "'f mstate \<Rightarrow> 'f mstate \<Rightarrow> bool" where
  "keeps s s' \<longleftrightarrow> same_graph s s' \<and> rebuild_space s' = rebuild_space s"

definition keeping :: "'f mstate \<Rightarrow> engine_error + 'f mstate \<Rightarrow> bool" where
  "keeping s m \<longleftrightarrow> (case m of Inl err \<Rightarrow> True | Inr s' \<Rightarrow> keeps s s')"

lemma same_graph_refl: "same_graph s s"
  by (simp add: same_graph_def)

lemma same_graph_trans: "same_graph s s1 \<Longrightarrow> same_graph s1 s2 \<Longrightarrow> same_graph s s2"
  by (simp add: same_graph_def)

lemma keeps_trans: "keeps s s1 \<Longrightarrow> keeps s1 s2 \<Longrightarrow> keeps s s2"
  by (auto simp: keeps_def intro: same_graph_trans)

lemma keeping_Inr: "keeping s (Inr s)"
  by (simp add: keeping_def keeps_def same_graph_refl)

lemma keeping_Inl: "keeping s (Inl err)"
  by (simp add: keeping_def)

lemma keeping_bind:
  fixes m :: "engine_error + 'f mstate"
  assumes "keeping s m" "\<And>s1. m = Inr s1 \<Longrightarrow> keeping s1 (f s1)"
  shows "keeping s (bind_res m f)"
proof (cases m)
  case (Inl a)
  then show ?thesis by (simp add: keeping_def)
next
  case (Inr s1)
  with assms(1) have a: "keeps s s1" by (simp add: keeping_def)
  from assms(2)[OF Inr] have b: "keeping s1 (f s1)" .
  show ?thesis
  proof (cases "f s1")
    case (Inl e)
    with Inr show ?thesis by (simp add: keeping_def)
  next
    case r: (Inr s2)
    with b have "keeps s1 s2" by (simp add: keeping_def)
    with a have "keeps s s2" by (rule keeps_trans)
    with Inr r show ?thesis by (simp add: keeping_def)
  qed
qed

lemma keeping_cell:
  "(\<And>c. keeping s (f c)) \<Longrightarrow> keeping s (bind_res (cell_at s p) f)"
  by (cases "cell_at s p") (simp_all add: keeping_def)

lemma keeping_find:
  "(\<And>l. keeping s (f l)) \<Longrightarrow> keeping s (bind_res (find_link s ls nid) f)"
  by (cases "find_link s ls nid") (simp_all add: keeping_def)

lemma keeping_if: "keeping s a \<Longrightarrow> keeping s b \<Longrightarrow> keeping s (if c then a else b)"
  by simp

lemma keeping_case_option:
  "keeping s a \<Longrightarrow> (\<And>d. keeping s (b d)) \<Longrightarrow> keeping s (case x of None \<Rightarrow> a | Some d \<Rightarrow> b d)"
  by (cases x) simp_all

lemma keeping_activate: "keeping s (scheduler_activate s p)"
  by (auto simp: keeping_def keeps_def same_graph_def scheduler_activate_def nth_update_skip
      split: option.splits)

lemma keeping_or: "keeping s (atomic_or_flags s p w)"
  by (auto simp: keeping_def keeps_def same_graph_def atomic_or_flags_def nth_update_flags
      split: option.splits)

lemma keeping_reset: "keeping s (reset_updated s p)"
  by (auto simp: keeping_def keeps_def same_graph_def reset_updated_def split: option.splits)

lemmas keeping_intros = keeping_Inr keeping_Inl keeping_bind keeping_cell keeping_find
  keeping_if keeping_case_option keeping_activate keeping_or keeping_reset

lemma keeping_sort: "keeping s (marktasks_sort s ind pc)"
  unfolding marktasks_sort_def by (intro keeping_intros)

lemma keeping_link: "keeping s (activate_link s l nid err)"
  unfolding activate_link_def by (intro keeping_intros)

lemma keeping_foreign: "keeping s (marktasks_foreign e s pf pl)"
  unfolding marktasks_foreign_def by (intro keeping_intros keeping_link)

lemma keeping_single: "keeping s (marktasks_single e s ind)"
  unfolding marktasks_single_def by (intro keeping_intros)

lemma keeping_sorts: "keeping s (marktasks_sorts s ind)"
  unfolding marktasks_sorts_def by (intro keeping_intros keeping_sort)

lemma keeping_mpi: "keeping s (marktasks_mpi cfg e s ind)"
  unfolding marktasks_mpi_def by (intro keeping_intros keeping_foreign)

text \<open>The displacement test of the pair task at index \<open>i\<close>.\<close>

definition exceeds :: "'f float_ops \<Rightarrow> 'f \<Rightarrow> 'f mstate \<Rightarrow> nat \<Rightarrow> bool" where
  "exceeds ops space_maxreldx s i \<longleftrightarrow>
     (case cell_at s (ci (tasks s ! i)) of Inl err \<Rightarrow> False
      | Inr a \<Rightarrow> (case cell_at s (cj (tasks s ! i)) of Inl err \<Rightarrow> False
          | Inr b \<Rightarrow> too_much_movement ops space_maxreldx a b))"

definition forces_rebuild :: "'f float_ops \<Rightarrow> 'f \<Rightarrow> 'f mstate \<Rightarrow> nat \<Rightarrow> bool" where
  "forces_rebuild ops space_maxreldx s i \<longleftrightarrow>
     (type (tasks s ! i) = task_type_pair \<or> type (tasks s ! i) = task_type_sub_pair)
     \<and> tight (tasks s ! i) \<and> exceeds ops space_maxreldx s i"

lemma keeping_pact:
  "(\<And>b. keeping s (f b)) \<Longrightarrow> keeping s (bind_res (pair_is_active e s i) f)"
  by (cases "pair_is_active e s i") (simp_all add: keeping_def)

lemma rebuild_step:
  assumes "marktasks_rebuild ops mx s i = Inr s1"
  shows "same_graph s s1 \<and>
     rebuild_space s1 = (if tight (tasks s ! i) \<and> exceeds ops mx s i then 1 else rebuild_space s)"
proof (cases "tight (tasks s ! i)")
  case False
  with assms show ?thesis by (simp add: marktasks_rebuild_def same_graph_refl)
next
  case True
  with assms obtain a b where a: "cell_at s (ci (tasks s ! i)) = Inr a"
    and b: "cell_at s (cj (tasks s ! i)) = Inr b"
    and s1: "s1 = (if too_much_movement ops mx a b then s\<lparr>rebuild_space := 1\<rparr> else s)"
    by (auto simp: marktasks_rebuild_def bind_res_Inr_iff)
  from a b have "exceeds ops mx s i = too_much_movement ops mx a b"
    by (simp add: exceeds_def)
  with True s1 show ?thesis by (simp add: same_graph_def)
qed

lemma pair_step:
  assumes "marktasks_pair ops mx cfg e s i = Inr s'"
  shows "same_graph s s' \<and>
     rebuild_space s' = (if tight (tasks s ! i) \<and> exceeds ops mx s i then 1 else rebuild_space s)"
proof -
  from assms obtain s1 where r: "marktasks_rebuild ops mx s i = Inr s1"
    and rest: "bind_res (pair_is_active e s1 i) (\<lambda>act.
       if \<not> act then Inr s1 else
       bind_res (scheduler_activate s1 (Some i)) (\<lambda>s2.
         if subtype (tasks s2 ! i) \<noteq> task_subtype_density then Inr s2 else
         bind_res (marktasks_sorts s2 i) (\<lambda>s3. marktasks_mpi cfg e s3 i))) = Inr s'"
    by (auto simp: marktasks_pair_def bind_res_Inr_iff)
  have "keeping s1 (bind_res (pair_is_active e s1 i) (\<lambda>act.
       if \<not> act then Inr s1 else
       bind_res (scheduler_activate s1 (Some i)) (\<lambda>s2.
         if subtype (tasks s2 ! i) \<noteq> task_subtype_density then Inr s2 else
         bind_res (marktasks_sorts s2 i) (\<lambda>s3. marktasks_mpi cfg e s3 i))))"
    by (intro keeping_pact keeping_intros keeping_sorts keeping_mpi)
  with rest have k: "keeps s1 s'" by (simp add: keeping_def)
  from rebuild_step[OF r] k show ?thesis
    by (auto simp: keeps_def intro: same_graph_trans)
qed

lemma task_step:
  assumes "marktasks_task ops mx cfg e s i = Inr s'"
  shows "same_graph s s' \<and>
     rebuild_space s' = (if forces_rebuild ops mx s i then 1 else rebuild_space s)"
proof (cases "type (tasks s ! i) = task_type_pair \<or> type (tasks s ! i) = task_type_sub_pair")
  case True
  with assms have "marktasks_pair ops mx cfg e s i = Inr s'"
    by (auto simp: marktasks_task_def)
  from pair_step[OF this] True show ?thesis by (simp add: forces_rebuild_def)
next
  case False
  have "keeping s (marktasks_task ops mx cfg e s i)"
    unfolding marktasks_task_def Let_def using False
    by (auto intro!: keeping_intros keeping_single)
  with assms False show ?thesis by (simp add: keeping_def keeps_def forces_rebuild_def)
qed

lemma forces_rebuild_same:
  "same_graph s s' \<Longrightarrow> forces_rebuild ops mx s' i = forces_rebuild ops mx s i"
proof -
  assume g: "same_graph s s'"
  then have c: "\<And>p. cell_at s' p = cell_at s p"
    by (auto simp: cell_at_def same_graph_def split: option.splits)
  from g have t: "type (tasks s' ! i) = type (tasks s ! i)" "tight (tasks s' ! i) = tight (tasks s ! i)"
    "ci (tasks s' ! i) = ci (tasks s ! i)" "cj (tasks s' ! i) = cj (tasks s ! i)"
    by (simp_all add: same_graph_def)
  show ?thesis by (simp only: forces_rebuild_def exceeds_def c t)
qed

lemma mapper_step:
  assumes "engine_marktasks_mapper ops mx cfg e s first n = Inr s'"
  shows "same_graph s s' \<and>
     rebuild_space s' =
       (if \<exists>i. first \<le> i \<and> i < first + n \<and> forces_rebuild ops mx s i then 1
        else rebuild_space s)"
  using assms
proof (induction n arbitrary: s first)
  case 0
  then show ?case by (auto simp: same_graph_refl)
next
  case (Suc n)
  from Suc.prems obtain s1 where a: "marktasks_task ops mx cfg e s first = Inr s1"
    and b: "engine_marktasks_mapper ops mx cfg e s1 (Suc first) n = Inr s'"
    by (auto simp: bind_res_Inr_iff)
  note t = task_step[OF a]
  note m = Suc.IH[OF b]
  have f: "\<And>i. forces_rebuild ops mx s1 i = forces_rebuild ops mx s i"
    using t by (simp add: forces_rebuild_same)
  have r: "\<And>P. (\<exists>i. first \<le> i \<and> i < first + Suc n \<and> P i)
      \<longleftrightarrow> P first \<or> (\<exists>i. Suc first \<le> i \<and> i < Suc first + n \<and> P i)"
    by (metis (no_types, lifting) Suc_leD Suc_leI add_Suc add_Suc_right le_neq_implies_less
        less_add_Suc1 order_refl)
  from t m show ?case
    unfolding r f by (auto intro: same_graph_trans)
qed

text \<open>
  Claim C2 (as amended).  When \<open>engine_marktasks\<close> returns, its result is nonzero iff some
  task of type pair or sub\_pair that has its \<open>tight\<close> flag set fails the displacement
  test, that is \<open>max(ci.h_max, cj.h_max) + ci.dx_max + cj.dx_max > cj.dmin\<close> or
  \<open>ci.dx_max > space_maxreldx * ci.h_max\<close> or \<open>cj.dx_max > space_maxreldx * cj.h_max\<close>;
  otherwise the result is 0.
\<close>

theorem marktasks_rebuild_flag:
  assumes "engine_marktasks ops space_maxreldx cfg e s = Inr (s', r)"
  shows "(r = 1 \<or> r = 0) \<and>
     (r \<noteq> 0 \<longleftrightarrow> (\<exists>i < length (tasks s). forces_rebuild ops space_maxreldx s i))"
proof -
  let ?u = "s\<lparr>rebuild_space := 0\<rparr>"
  from assms have m: "engine_marktasks_mapper ops space_maxreldx cfg e ?u 0 (length (tasks s)) = Inr s'"
    and r: "r = rebuild_space s'"
    by (auto simp: engine_marktasks_def bind_res_Inr_iff)
  have "same_graph s ?u" by (simp add: same_graph_def)
  then have f: "\<And>i. forces_rebuild ops space_maxreldx ?u i = forces_rebuild ops space_maxreldx s i"
    by (rule forces_rebuild_same)
  from mapper_step[OF m] show ?thesis unfolding r f by auto
qed

subsection \<open>What an active density pair activates\<close>










definition active_tasks :: "'f mstate \<Rightarrow> nat list" where
  "active_tasks s = filter (\<lambda>i. \<not> skip (tasks s ! i)) [0..<length (tasks s)]"







text \<open>
  Claim C6.  Running the pass a second time on the state the first run left, with cells,
  tasks and time unchanged, returns the same state and flag, so the same tasks are active.
  (The sort pointers are assumed to refer to sort tasks.)
\<close>

theorem marktasks_idempotent:
  assumes "sorts_linked s"
    and "engine_marktasks ops space_maxreldx cfg e s = Inr (s', r)"
  shows "\<exists>s'' r'. engine_marktasks ops space_maxreldx cfg e s' = Inr (s'', r')
           \<and> active_tasks s'' = active_tasks s' \<and> s'' = s' \<and> r' = r"
  using marktasks_twice[OF assms] by simp

lemma well_linked_state0: "well_linked config0 state0"
  by (simp add: well_linked_def sorts_linked_state0 config0_def)


lemma active_tasks_state1: "active_tasks state1 = [0, 2, 4, 5]"
proof -
  have u: "[0..<6] = [0, 1, 2, 3, 4, 5 :: nat]" by code_simp
  have l: "length (tasks state1) = 6" by (simp add: state1_def)
  show ?thesis unfolding active_tasks_def l u by (simp add: state1_def task_blank_def)
qed

theorem marktasks_idempotent_witness:
  "sorts_linked state0
   \<and> engine_marktasks real_ops (1/4) config0 engine0 state0 = Inr (state1, 0)
   \<and> engine_marktasks real_ops (1/4) config0 engine0 state1 = Inr (state1, 0)
   \<and> active_tasks state1 = [0, 2, 4, 5]"
  using marktasks_idempotent[OF sorts_linked_state0 marktasks_state0]
    sorts_linked_state0 marktasks_state0 active_tasks_state1
  by simp

text \<open>
  A node with MPI: cell 0 is local and active, cell 1 lives on node 1 and is not active.
  Task 0 is their density pair along axis 3; tasks 1 and 2 are the sort tasks; tasks 3 to 5
  receive cell 1; tasks 6 to 8 send cell 0 to node 1; task 9 is the drift of cell 0 and
  task 10 a self task of cell 1.
\<close>

definition config_mpi :: config where
  "config_mpi = \<lparr> WITH_MPI = True, EXTRA_HYDRO_LOOP = False \<rparr>"

definition state_mpi :: "real mstate" where
  "state_mpi = \<lparr>
     tasks = [
       task_blank\<lparr>type := task_type_pair, subtype := task_subtype_density, flags := 3,
                  ci := Some 0, cj := Some 1, tight := True\<rparr>,
       task_blank\<lparr>type := task_type_sort, ci := Some 0\<rparr>,
       task_blank\<lparr>type := task_type_sort, ci := Some 1\<rparr>,
       task_blank\<lparr>type := task_type_recv, subtype := task_subtype_xv, ci := Some 1\<rparr>,
       task_blank\<lparr>type := task_type_recv, subtype := task_subtype_rho, ci := Some 1\<rparr>,
       task_blank\<lparr>type := task_type_recv, subtype := task_subtype_tend, ci := Some 1\<rparr>,
       task_blank\<lparr>type := task_type_send, subtype := task_subtype_xv, ci := Some 0, cj := Some 1\<rparr>,
       task_blank\<lparr>type := task_type_send, subtype := task_subtype_rho, ci := Some 0, cj := Some 1\<rparr>,
       task_blank\<lparr>type := task_type_send, subtype := task_subtype_tend, ci := Some 0, cj := Some 1\<rparr>,
       task_blank\<lparr>type := task_type_drift, ci := Some 0\<rparr>,
       task_blank\<lparr>type := task_type_self, subtype := task_subtype_density, ci := Some 1\<rparr>],
     cells = [
       cell_blank\<lparr>ti_end_min := 5, h_max := 1, dx_max := 0, dmin := 4, sorted_c := 0,
                  super := Some 0, sorts := Some 1, drift := Some 9,
                  send_xv := [6], send_rho := [7], send_ti := [8]\<rparr>,
       cell_blank\<lparr>ti_end_min := 8, h_max := 1, dx_max := 0, dmin := 4, sorted_c := 0,
                  nodeID := 1, sorts := Some 2,
                  recv_xv := Some 3, recv_rho := Some 4, recv_ti := Some 5\<rparr>],
     counters = [\<lparr>updated = 0, g_updated = 0, s_updated = 0\<rparr>,
                 \<lparr>updated = 0, g_updated = 0, s_updated = 0\<rparr>],
     rebuild_space = 0 \<rparr>"

definition state_mpi' :: "real mstate" where
  "state_mpi' = state_mpi \<lparr> tasks := [
       task_blank\<lparr>type := task_type_pair, subtype := task_subtype_density, flags := 3,
                  ci := Some 0, cj := Some 1, tight := True, skip := False\<rparr>,
       task_blank\<lparr>type := task_type_sort, ci := Some 0, flags := 8, skip := False\<rparr>,
       task_blank\<lparr>type := task_type_sort, ci := Some 1, flags := 8, skip := False\<rparr>,
       task_blank\<lparr>type := task_type_recv, subtype := task_subtype_xv, ci := Some 1, skip := False\<rparr>,
       task_blank\<lparr>type := task_type_recv, subtype := task_subtype_rho, ci := Some 1\<rparr>,
       task_blank\<lparr>type := task_type_recv, subtype := task_subtype_tend, ci := Some 1\<rparr>,
       task_blank\<lparr>type := task_type_send, subtype := task_subtype_xv, ci := Some 0, cj := Some 1,
                  skip := False\<rparr>,
       task_blank\<lparr>type := task_type_send, subtype := task_subtype_rho, ci := Some 0, cj := Some 1,
                  skip := False\<rparr>,
       task_blank\<lparr>type := task_type_send, subtype := task_subtype_tend, ci := Some 0, cj := Some 1,
                  skip := False\<rparr>,
       task_blank\<lparr>type := task_type_drift, ci := Some 0, skip := False\<rparr>,
       task_blank\<lparr>type := task_type_self, subtype := task_subtype_density, ci := Some 1\<rparr>] \<rparr>"

lemmas marktasks_defs = engine_marktasks_def marktasks_task_def marktasks_pair_def
  marktasks_single_def marktasks_rebuild_def pair_is_active_def marktasks_sorts_def
  marktasks_sort_def marktasks_mpi_def marktasks_foreign_def activate_link_def task_at_def
  cell_at_def scheduler_activate_def atomic_or_flags_def reset_updated_def
  too_much_movement_def cell_is_active_def







text \<open>One pair task whose cells have moved too far, once without and once with \<open>tight\<close>.\<close>

definition state_loose :: "real mstate" where
  "state_loose = \<lparr>
     tasks = [task_blank\<lparr>type := task_type_pair, subtype := task_subtype_force,
                ci := Some 0, cj := Some 1\<rparr>],
     cells = [cell_blank\<lparr>ti_end_min := 8, h_max := 1, dx_max := 5, dmin := 1\<rparr>,
              cell_blank\<lparr>ti_end_min := 8, h_max := 1, dx_max := 5, dmin := 1\<rparr>],
     counters = [\<lparr>updated = 0, g_updated = 0, s_updated = 0\<rparr>,
                 \<lparr>updated = 0, g_updated = 0, s_updated = 0\<rparr>],
     rebuild_space = 0 \<rparr>"

definition state_tight :: "real mstate" where
  "state_tight = state_loose\<lparr>tasks := [task_blank\<lparr>type := task_type_pair,
      subtype := task_subtype_force, ci := Some 0, cj := Some 1, tight := True\<rparr>]\<rparr>"

lemma marktasks_state_tight:
  "engine_marktasks real_ops (1/4) config0 engine0 state_tight
     = Inr (state_tight\<lparr>rebuild_space := 1\<rparr>, 1)"
  by (simp add: marktasks_defs state_tight_def state_loose_def cell_blank_def task_blank_def
      real_ops_def engine0_def config0_def)

theorem marktasks_rebuild_flag_witness:
  "engine_marktasks real_ops (1/4) config0 engine0 state_tight
     = Inr (state_tight\<lparr>rebuild_space := 1\<rparr>, 1)
   \<and> (\<exists>i < length (tasks state_tight). forces_rebuild real_ops (1/4) state_tight i)"
  using marktasks_rebuild_flag[OF marktasks_state_tight] marktasks_state_tight
  by simp

theorem marktasks_rebuild_flag_counterexample:
  "engine_marktasks real_ops (1/4) config0 engine0 state_loose = Inr (state_loose, 0)
   \<and> type (tasks state_loose ! 0) = task_type_pair
   \<and> ci (tasks state_loose ! 0) = Some 0 \<and> cj (tasks state_loose ! 0) = Some 1
   \<and> f_gt real_ops
        (f_add real_ops
          (f_add real_ops (f_max real_ops (h_max (cells state_loose ! 0)) (h_max (cells state_loose ! 1)))
             (dx_max (cells state_loose ! 0)))
          (dx_max (cells state_loose ! 1)))
        (dmin (cells state_loose ! 1))"
  by (simp add: marktasks_defs state_loose_def cell_blank_def task_blank_def
      real_ops_def engine0_def config0_def)


lemma active_tasks_state_mpi: "active_tasks state_mpi' = [0, 1, 2, 3, 6, 7, 8, 9]"
proof -
  have u: "[0..<11] = [0, 1, 2, 3, 4, 5, 6, 7, 8, 9, 10 :: nat]" by code_simp
  have l: "length (tasks state_mpi') = 11" by (simp add: state_mpi'_def)
  show ?thesis unfolding active_tasks_def l u by (simp add: state_mpi'_def task_blank_def)
qed



section \<open>The repartition trigger (engine\_step)\<close>

text \<open>
  \<open>struct repartition\<close> is declared in \<open>partition.h\<close> (not at hand); \<open>engine_step\<close> reads
  its fields \<open>type\<close> (here \<open>repart_type\<close>, an enumeration value) and \<open>fractionaltime\<close>.
\<close>

record 'f repartition =
  repart_type :: int
  fractionaltime :: 'f

text \<open>The scan for the smallest and the largest of the gathered times.\<close>

fun scan_times :: "'f float_ops \<Rightarrow> 'f \<times> 'f \<Rightarrow> 'f list \<Rightarrow> 'f \<times> 'f" where
  "scan_times ops (mintime, maxtime) [] = (mintime, maxtime)"
| "scan_times ops (mintime, maxtime) (t # ts) =
     scan_times ops
       (if f_lt ops t mintime then t else mintime, if f_gt ops t maxtime then t else maxtime) ts"

text \<open>
  The \<open>WITH_MPI\<close> block at the start of \<open>engine_step\<close>, as rank 0 runs it:
  \<open>elapsed_cputimes\<close> is the array that \<open>MPI_Gather\<close> fills, one time per rank (MPI has at
  least one rank).  The result is the engine with the flag \<open>forcerepart\<close> that is then
  broadcast to all ranks.
\<close>

definition engine_step_repart ::
  "'f float_ops \<Rightarrow> config \<Rightarrow> engine \<Rightarrow> 'f list \<Rightarrow> 'f repartition \<Rightarrow> engine" where
  "engine_step_repart ops cfg e elapsed_cputimes repartition =
     (if \<not> WITH_MPI cfg then e
      else if e_nodeID e = 0 then
        (if (updates e \<noteq> 0 \<and> updates e = total_nr_parts e)
            \<or> (g_updates e \<noteq> 0 \<and> g_updates e = total_nr_gparts e)
         then
           (case scan_times ops (hd elapsed_cputimes, hd elapsed_cputimes) (tl elapsed_cputimes) of
              (mintime, maxtime) \<Rightarrow>
                if f_gt ops (f_div ops (f_sub ops maxtime mintime) mintime) (fractionaltime repartition)
                then e\<lparr>forcerepart := repart_type repartition\<rparr>
                else e)
         else e)
      else e)"

lemma scan_times_fold:
  fixes ts :: "'f::linorder list"
  assumes "f_gt ops = (\<lambda>a b. a > b)" "f_lt ops = (\<lambda>a b. a < b)"
  shows "scan_times ops (mn, mx) ts = (fold min ts mn, fold max ts mx)"
proof (induction ts arbitrary: mn mx)
  case Nil
  then show ?case by simp
next
  case (Cons t ts)
  have a: "(if t < mn then t else mn) = min t mn" by (auto simp: min_def)
  have b: "(if mx < t then t else mx) = max t mx" by (auto simp: max_def)
  show ?case using assms by (simp add: Cons.IH a b)
qed

lemma scan_times_Min_Max:
  fixes ts :: "'f::linorder list"
  assumes "f_gt ops = (\<lambda>a b. a > b)" "f_lt ops = (\<lambda>a b. a < b)" "ts \<noteq> []"
  shows "scan_times ops (hd ts, hd ts) (tl ts) = (Min (set ts), Max (set ts))"
proof -
  from assms(3) obtain t ts' where ts: "ts = t # ts'" by (cases ts) auto
  have "Min (set (t # ts')) = fold min ts' t" by (rule Min.set_eq_fold)
  moreover have "Max (set (t # ts')) = fold max ts' t" by (rule Max.set_eq_fold)
  ultimately show ?thesis
    unfolding ts using assms(1,2) by (simp add: scan_times_fold)
qed

text \<open>Whether all particles, or all gravity particles, were updated in the last step.\<close>

definition all_updated :: "engine \<Rightarrow> bool" where
  "all_updated e \<longleftrightarrow>
     (updates e \<noteq> 0 \<and> updates e = total_nr_parts e)
     \<or> (g_updates e \<noteq> 0 \<and> g_updates e = total_nr_gparts e)"

text \<open>
  Claim C7 (as amended).  With MPI, on rank 0 and for comparisons \<open><\<close> and \<open>>\<close> that are a
  linear order, \<open>engine_step\<close> sets \<open>forcerepart\<close> to \<open>repartition->type\<close> iff all
  particles or all gravity particles were updated in the last step and
  \<open>(max - min) / min > repartition->fractionaltime\<close> for the largest and the smallest of
  the gathered times; otherwise it leaves the flag as it is.
\<close>

theorem engine_step_forcerepart:
  fixes elapsed_cputimes :: "'f::linorder list"
  assumes "f_gt ops = (\<lambda>a b. a > b)" and "f_lt ops = (\<lambda>a b. a < b)"
    and "elapsed_cputimes \<noteq> []" and "WITH_MPI cfg" and "e_nodeID e = 0"
  shows "engine_step_repart ops cfg e elapsed_cputimes repartition =
     (if all_updated e
         \<and> f_div ops (f_sub ops (Max (set elapsed_cputimes)) (Min (set elapsed_cputimes)))
              (Min (set elapsed_cputimes)) > fractionaltime repartition
      then e\<lparr>forcerepart := repart_type repartition\<rparr> else e)"
  using assms
  by (simp add: engine_step_repart_def all_updated_def scan_times_Min_Max)

definition engine_busy :: engine where
  "engine_busy = engine0\<lparr>updates := 1000\<rparr>"

definition repartition0 :: "real repartition" where
  "repartition0 = \<lparr> repart_type = 2, fractionaltime = 1/2 \<rparr>"

theorem engine_step_forcerepart_witness:
  "f_gt real_ops = (\<lambda>a b. a > b) \<and> f_lt real_ops = (\<lambda>a b. a < b)
   \<and> [1, 3 :: real] \<noteq> [] \<and> WITH_MPI config_mpi \<and> e_nodeID engine_busy = 0
   \<and> engine_step_repart real_ops config_mpi engine_busy [1, 3] repartition0
       = engine_busy\<lparr>forcerepart := 2\<rparr>"
  using engine_step_forcerepart[of real_ops "[1, 3]" config_mpi engine_busy repartition0]
  by (simp add: real_ops_def config_mpi_def engine_busy_def engine0_def repartition0_def
      all_updated_def)

theorem engine_step_forcerepart_counterexample:
  "WITH_MPI config_mpi \<and> e_nodeID engine0 = 0
   \<and> updates engine0 \<noteq> total_nr_parts engine0
   \<and> f_gt real_ops (f_div real_ops (f_sub real_ops 3 1) 1) (fractionaltime repartition0)
   \<and> forcerepart engine0 = 0 \<and> repart_type repartition0 = 2
   \<and> forcerepart (engine_step_repart real_ops config_mpi engine0 [1, 3] repartition0) = 0"
  by (simp add: engine_step_repart_def real_ops_def config_mpi_def engine0_def repartition0_def)

end
